theory Spec2Isabelle
  imports Main "HOL-Library.Word"
begin

section \<open>Basic types\<close>

text \<open>
  Block heights are Go \<open>uint64\<close> values, compared unsigned; \<open>common.Hash\<close> is a
  32-byte array, that is 256 bits; byte slices (\<open>[]byte\<close>) are lists of 8-bit
  characters.
\<close>

type_synonym uint64 = "64 word"
type_synonym hash = "256 word"
type_synonym bytes = string

section \<open>Package rawdb: persistence of the finality records\<close>

definition lastMilestone :: bytes where
  "lastMilestone = ''LastMilestone''"

definition lockFieldKey :: bytes where
  "lockFieldKey = ''LockField''"

text \<open>\<open>type Finality struct { Block uint64; Hash common.Hash }\<close>\<close>

record Finality =
  Block :: uint64
  Hash :: hash

text \<open>
  \<open>type LockField struct { Val bool; Block uint64; Hash common.Hash; IdList map[string]struct{} }\<close>.
  The fields \<open>Block\<close> and \<open>Hash\<close> are named \<open>LockBlock\<close> and \<open>LockHash\<close> here,
  since record fields are global names. A Go \<open>map[string]struct{}\<close> is a set of
  strings.
\<close>

record LockField =
  Val :: bool
  LockBlock :: uint64
  LockHash :: hash
  IdList :: "string set"

text \<open>
  The type parameter \<open>T\<close> of \<open>ReadFinality\<close>, \<open>WriteLastFinality\<close> and \<open>getKey\<close>
  ranges over \<open>*Milestone\<close> and \<open>*Checkpoint\<close>, the two types the switch of
  \<open>getKey\<close> knows. Both embed \<open>Finality\<close>, so a value of either is a \<open>Finality\<close>
  record.
\<close>

datatype variant = Milestone | Checkpoint

text \<open>\<open>func (f *Finality) set(block uint64, hash common.Hash)\<close>\<close>

definition set_Finality :: "Finality \<Rightarrow> uint64 \<Rightarrow> hash \<Rightarrow> Finality" where
  "set_Finality f blk h = f\<lparr>Block := blk, Hash := h\<rparr>"

text \<open>\<open>func (m *Milestone) clone() *Milestone { return &Milestone{} }\<close>: a fresh zero value.\<close>

definition clone :: "Finality \<Rightarrow> Finality" where
  "clone m = \<lparr>Block = 0, Hash = 0\<rparr>"

text \<open>\<open>func (m *Milestone) block() (uint64, common.Hash)\<close>\<close>

definition block :: "Finality \<Rightarrow> uint64 \<times> hash" where
  "block m = (Block m, Hash m)"

subsection \<open>The external collaborators: key-value store and JSON codec\<close>

text \<open>
  Modelled from the spec: the key-value store (\<open>ethdb.KeyValueReader\<close>,
  \<open>ethdb.KeyValueWriter\<close>) is not part of the sources. The spec gives it as
  \<open>get(key) -> bytes|absent\<close> and \<open>put(key, bytes) -> Result<(), Error>\<close>, where a
  write fails when the store is unavailable. A store is its contents and whether it is
  available; \<open>Get\<close> of an absent key returns an error, as the source's
  \<open>if err != nil\<close> after \<open>db.Get\<close> expects.
\<close>

datatype store_error = ErrNotFound | ErrUnavailable

record kvstore =
  entries :: "bytes \<rightharpoonup> bytes"
  available :: bool

definition db_Get :: "kvstore \<Rightarrow> bytes \<Rightarrow> store_error + bytes" where
  "db_Get db key =
     (if \<not> available db then Inl ErrUnavailable
      else case entries db key of None \<Rightarrow> Inl ErrNotFound | Some data \<Rightarrow> Inr data)"

definition db_Put :: "kvstore \<Rightarrow> bytes \<Rightarrow> bytes \<Rightarrow> store_error + kvstore" where
  "db_Put db key v =
     (if \<not> available db then Inl ErrUnavailable
      else Inr (db\<lparr>entries := (entries db)(key \<mapsto> v)\<rparr>))"

text \<open>
  The JSON library (\<open>json.Marshal\<close>, \<open>json.Unmarshal\<close> of json-iterator) is
  external too and is a parameter of every function that encodes or decodes: \<open>None\<close>
  is a returned error. \<open>Unmarshal\<close> takes the bytes and the value it decodes into.
\<close>

record json =
  Marshal_Finality :: "Finality \<Rightarrow> bytes option"
  Unmarshal_Finality :: "bytes \<Rightarrow> Finality \<Rightarrow> Finality option"
  Marshal_LockField :: "LockField \<Rightarrow> bytes option"
  Unmarshal_LockField :: "bytes \<Rightarrow> LockField \<Rightarrow> LockField option"

text \<open>
  The errors the rawdb functions return. \<open>EmptyResponse e\<close> is
  \<open>fmt.Errorf("%w: empty response for %s", err, key)\<close>, which wraps the store's own
  error \<open>e\<close>; the others are the sentinel errors the source wraps.
\<close>

datatype error =
    EmptyResponse store_error
  | ErrEmptyLastFinality
  | ErrIncorrectFinality
  | ErrIncorrectFinalityToStore
  | ErrDBNotResponding
  | ErrIncorrectLockFieldToStore
  | ErrIncorrectLockField

subsection \<open>Reading and writing the last finality\<close>

text \<open>
  \<open>getKey\<close>: a fresh value of \<open>T\<close> and the key the type switch selects.
  \<open>lastCheckpoint\<close> is declared in a file that is not part of the sources, so the
  key of the checkpoint variant is a parameter.
\<close>

definition getKey :: "bytes \<Rightarrow> variant \<Rightarrow> Finality \<times> bytes" where
  "getKey lastCheckpoint T =
     (let lastT = clone \<lparr>Block = 0, Hash = 0\<rparr>
      in (lastT, case T of Milestone \<Rightarrow> lastMilestone | Checkpoint \<Rightarrow> lastCheckpoint))"

definition ReadFinality ::
  "json \<Rightarrow> bytes \<Rightarrow> variant \<Rightarrow> kvstore \<Rightarrow> error + (uint64 \<times> hash)" where
  "ReadFinality J lastCheckpoint T db =
     (case getKey lastCheckpoint T of (lastTV, key) \<Rightarrow>
        (case db_Get db key of
           Inl err \<Rightarrow> Inl (EmptyResponse err)
         | Inr data \<Rightarrow>
             if length data = 0 then Inl ErrEmptyLastFinality
             else (case Unmarshal_Finality J data lastTV of
                     None \<Rightarrow> Inl ErrIncorrectFinality
                   | Some decoded \<Rightarrow> Inr (block decoded))))"

definition WriteLastFinality ::
  "json \<Rightarrow> bytes \<Rightarrow> variant \<Rightarrow> kvstore \<Rightarrow> uint64 \<Rightarrow> hash \<Rightarrow> error + kvstore" where
  "WriteLastFinality J lastCheckpoint T db blk h =
     (case getKey lastCheckpoint T of (lastTV, key) \<Rightarrow>
        (case Marshal_Finality J (set_Finality lastTV blk h) of
           None \<Rightarrow> Inl ErrIncorrectFinalityToStore
         | Some enc \<Rightarrow>
             (case db_Put db key enc of
                Inl err \<Rightarrow> Inl ErrDBNotResponding
              | Inr db' \<Rightarrow> Inr db')))"

subsection \<open>Reading and writing the lock field\<close>

definition WriteLockField ::
  "json \<Rightarrow> kvstore \<Rightarrow> bool \<Rightarrow> uint64 \<Rightarrow> hash \<Rightarrow> string set \<Rightarrow> error + kvstore" where
  "WriteLockField J db val blk h idListMap =
     (let lockField = \<lparr>Val = val, LockBlock = blk, LockHash = h, IdList = idListMap\<rparr>;
          key = lockFieldKey
      in case Marshal_LockField J lockField of
           None \<Rightarrow> Inl ErrIncorrectLockFieldToStore
         | Some enc \<Rightarrow>
             (case db_Put db key enc of
                Inl err \<Rightarrow> Inl ErrDBNotResponding
              | Inr db' \<Rightarrow> Inr db'))"

definition ReadLockField ::
  "json \<Rightarrow> kvstore \<Rightarrow> error + (bool \<times> uint64 \<times> hash \<times> string set)" where
  "ReadLockField J db =
     (let key = lockFieldKey;
          lockField = \<lparr>Val = False, LockBlock = 0, LockHash = 0, IdList = {}\<rparr>
      in case db_Get db key of
           Inl err \<Rightarrow> Inl (EmptyResponse err)
         | Inr data \<Rightarrow>
             if length data = 0 then Inl ErrIncorrectLockField
             else (case Unmarshal_LockField J data lockField of
                     None \<Rightarrow> Inl ErrIncorrectLockField
                   | Some lf \<Rightarrow> Inr (Val lf, LockBlock lf, LockHash lf, IdList lf)))"

section \<open>Package whitelist: the milestone guard\<close>

text \<open>
  A block header, as far as this package reads it: \<open>hdrNumber\<close> is the value of
  \<open>Number.Uint64()\<close> and \<open>hdrHash\<close> the value of \<open>Hash()\<close>.
\<close>

record header =
  hdrNumber :: uint64
  hdrHash :: hash

text \<open>
  The embedded struct \<open>finality[*rawdb.Milestone]\<close> is declared in a file that is not
  part of the sources. Its fields are the ones the milestone's methods read and write:
  \<open>db\<close>, \<open>doExist\<close>, \<open>Number\<close>, and the finalized hash (\<open>Hash\<close> in Go, \<open>FinHash\<close>
  here). The store is a field of the state, so a write returns the state with the new
  store. The mutex of the struct is not modelled: every operation is its effect on the
  state when it runs alone.
\<close>

record finality =
  db :: kvstore
  doExist :: bool
  Number :: uint64
  FinHash :: hash

text \<open>\<open>type milestone struct\<close>: the embedded finality and the sprint lock.\<close>

record milestone = finality +
  LockedSprintNumber :: uint64
  LockedSprintHash :: hash
  Locked :: bool
  LockedMilestoneIDs :: "string set"

text \<open>
  Indexing a slice out of range panics in Go; \<open>IsReorgAllowed\<close> and its caller
  return the panic as a value.
\<close>

datatype panic = IndexOutOfRange

text \<open>The loop of \<open>IsReorgAllowed\<close>: the first header at the locked height decides.\<close>

fun scanChain :: "header list \<Rightarrow> uint64 \<Rightarrow> hash \<Rightarrow> bool" where
  "scanChain [] lockedSprintNumber lockedSprintHash = True"
| "scanChain (c # chain) lockedSprintNumber lockedSprintHash =
     (if hdrNumber c = lockedSprintNumber then hdrHash c = lockedSprintHash
      else scanChain chain lockedSprintNumber lockedSprintHash)"

definition IsReorgAllowed :: "header list \<Rightarrow> uint64 \<Rightarrow> hash \<Rightarrow> panic + bool" where
  "IsReorgAllowed chain lockedSprintNumber lockedSprintHash =
     (if length chain = 0 then Inl IndexOutOfRange
      else if hdrNumber (chain ! (length chain - 1)) \<le> lockedSprintNumber then Inr False
      else Inr (scanChain chain lockedSprintNumber lockedSprintHash))"

text \<open>\<open>purgeMilestoneIDsList\<close>: a new, empty map.\<close>

definition purgeMilestoneIDsList :: "milestone \<Rightarrow> milestone" where
  "purgeMilestoneIDsList m = m\<lparr>LockedMilestoneIDs := {}\<rparr>"

text \<open>
  The four lines every mutating method ends with: write the lock field, log an error
  and go on. A failed write leaves the store as it was.
\<close>

definition writeLock :: "json \<Rightarrow> milestone \<Rightarrow> milestone" where
  "writeLock J m =
     (case WriteLockField J (db m) (Locked m) (LockedSprintNumber m) (LockedSprintHash m)
             (LockedMilestoneIDs m) of
        Inl err \<Rightarrow> m
      | Inr db' \<Rightarrow> m\<lparr>db := db'\<rparr>)"

definition UnlockSprint :: "json \<Rightarrow> milestone \<Rightarrow> uint64 \<Rightarrow> milestone" where
  "UnlockSprint J m endBlockNum =
     (if endBlockNum < LockedSprintNumber m then m
      else writeLock J (purgeMilestoneIDsList (m\<lparr>Locked := False\<rparr>)))"

definition LockMutex :: "json \<Rightarrow> milestone \<Rightarrow> uint64 \<Rightarrow> bool \<times> milestone" where
  "LockMutex J m endBlockNum =
     (if doExist m \<and> endBlockNum \<le> Number m then (False, m)
      else if Locked m \<and> endBlockNum \<noteq> LockedSprintNumber m then
        (if endBlockNum < LockedSprintNumber m then (False, m)
         else (True, (UnlockSprint J m (LockedSprintNumber m))
                       \<lparr>Locked := False, LockedSprintNumber := endBlockNum\<rparr>))
      else (True, m\<lparr>LockedSprintNumber := endBlockNum\<rparr>))"

definition UnlockMutex :: "json \<Rightarrow> milestone \<Rightarrow> bool \<Rightarrow> string \<Rightarrow> hash \<Rightarrow> milestone" where
  "UnlockMutex J m doLock milestoneId endBlockHash =
     (let m1 = m\<lparr>Locked := (Locked m \<or> doLock)\<rparr>;
          m2 = (if doLock
                then m1\<lparr>LockedSprintHash := endBlockHash,
                        LockedMilestoneIDs := insert milestoneId (LockedMilestoneIDs m1)\<rparr>
                else m1)
      in writeLock J m2)"

definition RemoveMilestoneID :: "json \<Rightarrow> milestone \<Rightarrow> string \<Rightarrow> milestone" where
  "RemoveMilestoneID J m milestoneId =
     (let m1 = m\<lparr>LockedMilestoneIDs := LockedMilestoneIDs m - {milestoneId}\<rparr>;
          m2 = (if LockedMilestoneIDs m1 = {} then m1\<lparr>Locked := False\<rparr> else m1)
      in writeLock J m2)"

text \<open>
  Modelled from the spec: \<open>finality.Process\<close> is declared with the \<open>finality\<close> struct,
  in a file that is not part of the sources. The spec: it "updates the in-memory record
  to (block, hash), persists it" through \<open>WriteLastFinality\<close>, and a failed write is
  "logged and swallowed". After it a finalized record exists (\<open>doExist\<close>). It works on
  the embedded struct only, whatever the struct around it.
\<close>

definition finality_Process ::
  "json \<Rightarrow> bytes \<Rightarrow> 'a finality_scheme \<Rightarrow> uint64 \<Rightarrow> hash \<Rightarrow> 'a finality_scheme" where
  "finality_Process J lastCheckpoint f blk h =
     (let f1 = f\<lparr>doExist := True, Number := blk, FinHash := h\<rparr>
      in case WriteLastFinality J lastCheckpoint Milestone (db f1) blk h of
           Inl err \<Rightarrow> f1
         | Inr db' \<Rightarrow> f1\<lparr>db := db'\<rparr>)"

definition Process :: "json \<Rightarrow> bytes \<Rightarrow> milestone \<Rightarrow> uint64 \<Rightarrow> hash \<Rightarrow> milestone" where
  "Process J lastCheckpoint m blk h =
     (if Number m = blk then m
      else UnlockSprint J (finality_Process J lastCheckpoint m blk h) blk)"

text \<open>
  \<open>milestone.IsValidChain\<close>. The flag \<open>flags.Milestone\<close> and the base check
  \<open>finality.IsValidChain\<close> are declared outside the sources and are parameters; the
  base check sees the embedded struct only.
\<close>

definition IsValidChain ::
  "bool \<Rightarrow> (finality \<Rightarrow> header \<Rightarrow> header list \<Rightarrow> bool) \<Rightarrow> milestone \<Rightarrow> header \<Rightarrow> header list
     \<Rightarrow> panic + bool" where
  "IsValidChain flags_Milestone finality_IsValidChain m currentHeader chain =
     (if \<not> flags_Milestone then Inr True
      else if \<not> finality_IsValidChain (finality.truncate m) currentHeader chain then Inr False
      else if Locked m then
        (case IsReorgAllowed chain (LockedSprintNumber m) (LockedSprintHash m) of
           Inl p \<Rightarrow> Inl p
         | Inr allowed \<Rightarrow> if \<not> allowed then Inr False else Inr True)
      else Inr True)"

section \<open>The lock invariant and an example state\<close>

text \<open>
  The invariant of the sprint lock, as the data model states it: the identifier set is
  empty whenever \<open>Locked\<close> is false.
\<close>

definition lockInv :: "milestone \<Rightarrow> bool" where
  "lockInv m = (\<not> Locked m \<longrightarrow> LockedMilestoneIDs m = {})"

text \<open>
  An example instance, on which the theorems below are evaluated: a codec that encodes
  the finality record \<open>(5, 7)\<close> and a lock field by its \<open>Val\<close>, and fails on
  anything else; an empty, available store; and a guard finalized at \<open>(50, 3)\<close> and
  locked at \<open>(100, 7)\<close> by the proposal \<open>a\<close>.
\<close>

definition exampleJson :: json where
  "exampleJson =
     \<lparr>Marshal_Finality =
        (\<lambda>f. if Block f = 5 \<and> Hash f = 7 then Some ''{Block:5,Hash:7}'' else None),
      Unmarshal_Finality =
        (\<lambda>data target. if data = ''{Block:5,Hash:7}''
                        then Some (target\<lparr>Block := 5, Hash := 7\<rparr>) else None),
      Marshal_LockField = (\<lambda>l. Some (if Val l then ''locked'' else ''unlocked'')),
      Unmarshal_LockField = (\<lambda>data target. None)\<rparr>"

definition exampleStore :: kvstore where
  "exampleStore = \<lparr>entries = Map.empty, available = True\<rparr>"

definition exampleGuard :: milestone where
  "exampleGuard =
     \<lparr>db = exampleStore, doExist = True, Number = 50, FinHash = 3,
      LockedSprintNumber = 100, LockedSprintHash = 7, Locked = True,
      LockedMilestoneIDs = {''a''}\<rparr>"

section \<open>The reorg rule\<close>

lemma scanChain_first:
  "(\<forall>x\<in>set pre. hdrNumber x \<noteq> n) \<Longrightarrow> hdrNumber b = n \<Longrightarrow>
     scanChain (pre @ b # post) n h = (hdrHash b = h)"
  by (induction pre) auto

lemma scanChain_absent:
  "(\<forall>x\<in>set chain. hdrNumber x \<noteq> n) \<Longrightarrow> scanChain chain n h = True"
  by (induction chain) auto

lemma scanChain_same_hash:
  assumes "b \<in> set chain" and "hdrNumber b = n"
    and "\<forall>x\<in>set chain. hdrNumber x = n \<longrightarrow> hdrHash x = hdrHash b"
  shows "scanChain chain n h = (hdrHash b = h)"
  using assms
proof (induction chain)
  case Nil
  then show ?case by simp
next
  case (Cons a chain)
  show ?case
  proof (cases "hdrNumber a = n")
    case True
    have "a \<in> set (a # chain)" by simp
    with Cons.prems(3) True have "hdrHash a = hdrHash b" by blast
    with True show ?thesis by simp
  next
    case False
    with Cons.prems(1,2) have mem: "b \<in> set chain" by (metis set_ConsD)
    from Cons.prems(3)
    have rest: "\<forall>x\<in>set chain. hdrNumber x = n \<longrightarrow> hdrHash x = hdrHash b"
      by (meson list.set_intros(2))
    from mem Cons.prems(2) rest have "scanChain chain n h = (hdrHash b = h)"
      by (rule Cons.IH)
    with False show ?thesis by simp
  qed
qed

lemma last_index: "chain \<noteq> [] \<Longrightarrow> chain ! (length chain - Suc 0) = last chain"
  by (simp add: last_conv_nth)

lemma IsReorgAllowed_low:
  "chain \<noteq> [] \<Longrightarrow> hdrNumber (last chain) \<le> n \<Longrightarrow> IsReorgAllowed chain n h = Inr False"
  by (simp add: IsReorgAllowed_def last_index)

lemma IsReorgAllowed_high:
  "chain \<noteq> [] \<Longrightarrow> n < hdrNumber (last chain) \<Longrightarrow>
     IsReorgAllowed chain n h = Inr (scanChain chain n h)"
proof -
  assume ne: "chain \<noteq> []" and "n < hdrNumber (last chain)"
  then have "\<not> hdrNumber (last chain) \<le> n" by (simp add: not_le)
  with ne show ?thesis by (simp add: IsReorgAllowed_def last_index)
qed

text \<open>
  Claim C2. For a non-empty chain, \<open>IsReorgAllowed\<close> returns false when the last
  header's number is at or below the locked number. Otherwise, when the chain has a
  header at the locked number, it returns whether that header's hash is the locked hash:
  this is stated for the first such header (all before it have other numbers), and for
  any such header \<open>c\<close> when every header at the locked number has the hash of \<open>c\<close>
  (in particular when \<open>c\<close> is the only one). When no header has the locked number it
  returns true.
\<close>

theorem IsReorgAllowed_spec:
  assumes "chain \<noteq> []"
  shows "(hdrNumber (last chain) \<le> n \<longrightarrow> IsReorgAllowed chain n h = Inr False)
       \<and> (n < hdrNumber (last chain) \<longrightarrow>
            (chain = pre @ b # post \<and> (\<forall>x\<in>set pre. hdrNumber x \<noteq> n) \<and> hdrNumber b = n
               \<longrightarrow> IsReorgAllowed chain n h = Inr (hdrHash b = h))
          \<and> (c \<in> set chain \<and> hdrNumber c = n
                 \<and> (\<forall>x\<in>set chain. hdrNumber x = n \<longrightarrow> hdrHash x = hdrHash c)
               \<longrightarrow> IsReorgAllowed chain n h = Inr (hdrHash c = h))
          \<and> ((\<forall>x\<in>set chain. hdrNumber x \<noteq> n) \<longrightarrow> IsReorgAllowed chain n h = Inr True))"
proof (intro conjI impI)
  assume "hdrNumber (last chain) \<le> n"
  with assms show "IsReorgAllowed chain n h = Inr False"
    by (rule IsReorgAllowed_low)
next
  assume high: "n < hdrNumber (last chain)"
    and first: "chain = pre @ b # post \<and> (\<forall>x\<in>set pre. hdrNumber x \<noteq> n) \<and> hdrNumber b = n"
  from assms high have "IsReorgAllowed chain n h = Inr (scanChain chain n h)"
    by (rule IsReorgAllowed_high)
  moreover from first have "scanChain chain n h = (hdrHash b = h)"
    using scanChain_first [of pre n b post h] by simp
  ultimately show "IsReorgAllowed chain n h = Inr (hdrHash b = h)" by simp
next
  assume high: "n < hdrNumber (last chain)"
    and same: "c \<in> set chain \<and> hdrNumber c = n
       \<and> (\<forall>x\<in>set chain. hdrNumber x = n \<longrightarrow> hdrHash x = hdrHash c)"
  from assms high have "IsReorgAllowed chain n h = Inr (scanChain chain n h)"
    by (rule IsReorgAllowed_high)
  moreover have "scanChain chain n h = (hdrHash c = h)"
  proof (rule scanChain_same_hash)
    from same show "c \<in> set chain" by (rule conjunct1)
    from same show "hdrNumber c = n" by blast
    from same show "\<forall>x\<in>set chain. hdrNumber x = n \<longrightarrow> hdrHash x = hdrHash c" by blast
  qed
  ultimately show "IsReorgAllowed chain n h = Inr (hdrHash c = h)" by simp
next
  assume high: "n < hdrNumber (last chain)" and none: "\<forall>x\<in>set chain. hdrNumber x \<noteq> n"
  from assms high have "IsReorgAllowed chain n h = Inr (scanChain chain n h)"
    by (rule IsReorgAllowed_high)
  with none show "IsReorgAllowed chain n h = Inr True"
    by (simp add: scanChain_absent)
qed


text \<open>
  The four chains of the spec's example, with the boundary locked at \<open>(100, 7)\<close>.
\<close>

theorem IsReorgAllowed_spec_witness:
  "IsReorgAllowed [\<lparr>hdrNumber = 99, hdrHash = 1\<rparr>, \<lparr>hdrNumber = 100, hdrHash = 7\<rparr>,
                   \<lparr>hdrNumber = 150, hdrHash = 3\<rparr>] 100 7 = Inr True
   \<and> IsReorgAllowed [\<lparr>hdrNumber = 99, hdrHash = 1\<rparr>, \<lparr>hdrNumber = 100, hdrHash = 8\<rparr>,
                   \<lparr>hdrNumber = 150, hdrHash = 3\<rparr>] 100 7 = Inr False
   \<and> IsReorgAllowed [\<lparr>hdrNumber = 120, hdrHash = 1\<rparr>, \<lparr>hdrNumber = 150, hdrHash = 3\<rparr>] 100 7
       = Inr True
   \<and> IsReorgAllowed [\<lparr>hdrNumber = 89, hdrHash = 1\<rparr>, \<lparr>hdrNumber = 90, hdrHash = 3\<rparr>] 100 7
       = Inr False"
proof -
  let ?a = "\<lparr>hdrNumber = 99 :: uint64, hdrHash = 1 :: hash\<rparr>"
  let ?c = "\<lparr>hdrNumber = 150 :: uint64, hdrHash = 3 :: hash\<rparr>"
  let ?good = "\<lparr>hdrNumber = 100 :: uint64, hdrHash = 7 :: hash\<rparr>"
  let ?bad = "\<lparr>hdrNumber = 100 :: uint64, hdrHash = 8 :: hash\<rparr>"
  let ?d = "\<lparr>hdrNumber = 120 :: uint64, hdrHash = 1 :: hash\<rparr>"
  let ?e = "\<lparr>hdrNumber = 89 :: uint64, hdrHash = 1 :: hash\<rparr>"
  let ?f = "\<lparr>hdrNumber = 90 :: uint64, hdrHash = 3 :: hash\<rparr>"
  have through: "IsReorgAllowed [?a, ?good, ?c] 100 7 = Inr True"
    using IsReorgAllowed_spec [of "[?a, ?good, ?c]" 100 7 "[?a]" ?good "[?c]" ?good]
    by simp
  have other: "IsReorgAllowed [?a, ?bad, ?c] 100 7 = Inr False"
    using IsReorgAllowed_spec [of "[?a, ?bad, ?c]" 100 7 "[?a]" ?bad "[?c]" ?bad]
    by simp
  have absent: "IsReorgAllowed [?d, ?c] 100 7 = Inr True"
    using IsReorgAllowed_spec [of "[?d, ?c]" 100 7 "[]" ?d "[?c]" ?d]
    by simp
  have below: "IsReorgAllowed [?e, ?f] 100 7 = Inr False"
    using IsReorgAllowed_spec [of "[?e, ?f]" 100 7 "[]" ?e "[?f]" ?e]
    by simp
  show ?thesis
    by (intro conjI through other absent below)
qed

section \<open>Frame lemmas for the lock-field write\<close>

lemma writeLock_fields:
  "Locked (writeLock J m) = Locked m"
  "LockedSprintNumber (writeLock J m) = LockedSprintNumber m"
  "LockedSprintHash (writeLock J m) = LockedSprintHash m"
  "LockedMilestoneIDs (writeLock J m) = LockedMilestoneIDs m"
  "doExist (writeLock J m) = doExist m"
  "Number (writeLock J m) = Number m"
  "FinHash (writeLock J m) = FinHash m"
  by (simp_all add: writeLock_def split: sum.split)

lemma writeLock_db:
  "db (writeLock J m) =
     (case WriteLockField J (db m) (Locked m) (LockedSprintNumber m) (LockedSprintHash m)
             (LockedMilestoneIDs m) of
        Inl err \<Rightarrow> db m | Inr db' \<Rightarrow> db')"
  by (simp add: writeLock_def split: sum.split)

lemma WriteLockField_stored:
  "available d \<Longrightarrow>
   Marshal_LockField J \<lparr>Val = v, LockBlock = n, LockHash = h, IdList = ids\<rparr> = Some enc \<Longrightarrow>
     WriteLockField J d v n h ids = Inr (d\<lparr>entries := (entries d)(lockFieldKey \<mapsto> enc)\<rparr>)"
  by (simp add: WriteLockField_def db_Put_def)

section \<open>Unlocking a sprint\<close>

lemma UnlockSprint_below:
  "e < LockedSprintNumber m \<Longrightarrow> UnlockSprint J m e = m"
  by (simp add: UnlockSprint_def)

lemma UnlockSprint_reached:
  "\<not> e < LockedSprintNumber m \<Longrightarrow>
     UnlockSprint J m e = writeLock J (m\<lparr>Locked := False, LockedMilestoneIDs := {}\<rparr>)"
  by (simp add: UnlockSprint_def purgeMilestoneIDsList_def)

lemma UnlockSprint_frame:
  "LockedSprintNumber (UnlockSprint J m e) = LockedSprintNumber m"
  "LockedSprintHash (UnlockSprint J m e) = LockedSprintHash m"
  "doExist (UnlockSprint J m e) = doExist m"
  "Number (UnlockSprint J m e) = Number m"
  "FinHash (UnlockSprint J m e) = FinHash m"
  by (simp_all add: UnlockSprint_def purgeMilestoneIDsList_def writeLock_fields)

subsection \<open>What the embedded \<open>Process\<close> changes\<close>

lemma finality_Process_fields:
  "Number (finality_Process J ck m b h) = b"
  "FinHash (finality_Process J ck m b h) = h"
  "doExist (finality_Process J ck m b h) = True"
  by (simp_all add: finality_Process_def Let_def split: sum.split)

lemma finality_Process_lock:
  fixes m :: milestone
  shows "LockedSprintNumber (finality_Process J ck m b h) = LockedSprintNumber m"
    and "LockedSprintHash (finality_Process J ck m b h) = LockedSprintHash m"
    and "Locked (finality_Process J ck m b h) = Locked m"
    and "LockedMilestoneIDs (finality_Process J ck m b h) = LockedMilestoneIDs m"
  by (simp_all add: finality_Process_def Let_def split: sum.split)


subsection \<open>The cleared state and the written record\<close>

lemma UnlockSprint_cleared:
  assumes "LockedSprintNumber m \<le> e"
  shows "\<not> Locked (UnlockSprint J m e)"
    and "LockedMilestoneIDs (UnlockSprint J m e) = {}"
    and "db (UnlockSprint J m e) =
          (case WriteLockField J (db m) False (LockedSprintNumber m) (LockedSprintHash m) {} of
             Inl err \<Rightarrow> db m | Inr db' \<Rightarrow> db')"
proof -
  from assms have "\<not> e < LockedSprintNumber m" by (simp add: not_less)
  then have eq: "UnlockSprint J m e = writeLock J (m\<lparr>Locked := False, LockedMilestoneIDs := {}\<rparr>)"
    by (rule UnlockSprint_reached)
  show "\<not> Locked (UnlockSprint J m e)"
    by (simp add: eq writeLock_fields)
  show "LockedMilestoneIDs (UnlockSprint J m e) = {}"
    by (simp add: eq writeLock_fields)
  show "db (UnlockSprint J m e) =
          (case WriteLockField J (db m) False (LockedSprintNumber m) (LockedSprintHash m) {} of
             Inl err \<Rightarrow> db m | Inr db' \<Rightarrow> db')"
    by (simp add: eq writeLock_db split: sum.split)
qed

lemma UnlockSprint_stored:
  assumes "LockedSprintNumber m \<le> e" and "available (db m)"
    and "Marshal_LockField J \<lparr>Val = False, LockBlock = LockedSprintNumber m,
           LockHash = LockedSprintHash m, IdList = {}\<rparr> = Some enc"
  shows "db_Get (db (UnlockSprint J m e)) lockFieldKey = Inr enc"
proof -
  from assms(2,3)
  have "WriteLockField J (db m) False (LockedSprintNumber m) (LockedSprintHash m) {}
          = Inr ((db m)\<lparr>entries := (entries (db m))(lockFieldKey \<mapsto> enc)\<rparr>)"
    by (rule WriteLockField_stored)
  with assms(2) show ?thesis
    by (simp add: UnlockSprint_cleared(3) [OF assms(1)] db_Get_def)
qed

text \<open>
  Claim C7. \<open>UnlockSprint\<close> with an end block strictly below the locked sprint number
  returns the state as it was. With an end block at or above it, \<open>Locked\<close> is false
  afterwards, the identifier set is empty, and the lock field has been written: the
  store is the result of \<open>WriteLockField\<close> with the cleared fields (the store as it
  was when that write fails), so when the store is available and the record encodes,
  the encoding is what the lock-field key holds.
\<close>

theorem UnlockSprint_spec:
  "(e < LockedSprintNumber m \<longrightarrow> UnlockSprint J m e = m)
   \<and> (LockedSprintNumber m \<le> e \<longrightarrow>
        \<not> Locked (UnlockSprint J m e)
      \<and> LockedMilestoneIDs (UnlockSprint J m e) = {}
      \<and> db (UnlockSprint J m e) =
          (case WriteLockField J (db m) False (LockedSprintNumber m) (LockedSprintHash m) {} of
             Inl err \<Rightarrow> db m | Inr db' \<Rightarrow> db')
      \<and> (available (db m)
          \<and> Marshal_LockField J \<lparr>Val = False, LockBlock = LockedSprintNumber m,
                LockHash = LockedSprintHash m, IdList = {}\<rparr> = Some enc
          \<longrightarrow> db_Get (db (UnlockSprint J m e)) lockFieldKey = Inr enc))"
proof (intro conjI impI)
  assume "e < LockedSprintNumber m"
  then show "UnlockSprint J m e = m" by (rule UnlockSprint_below)
next
  assume "LockedSprintNumber m \<le> e"
  then show "\<not> Locked (UnlockSprint J m e)" by (rule UnlockSprint_cleared(1))
next
  assume "LockedSprintNumber m \<le> e"
  then show "LockedMilestoneIDs (UnlockSprint J m e) = {}" by (rule UnlockSprint_cleared(2))
next
  assume "LockedSprintNumber m \<le> e"
  then show "db (UnlockSprint J m e) =
          (case WriteLockField J (db m) False (LockedSprintNumber m) (LockedSprintHash m) {} of
             Inl err \<Rightarrow> db m | Inr db' \<Rightarrow> db')" by (rule UnlockSprint_cleared(3))
next
  assume "LockedSprintNumber m \<le> e"
    and "available (db m)
          \<and> Marshal_LockField J \<lparr>Val = False, LockBlock = LockedSprintNumber m,
                LockHash = LockedSprintHash m, IdList = {}\<rparr> = Some enc"
  then show "db_Get (db (UnlockSprint J m e)) lockFieldKey = Inr enc"
    using UnlockSprint_stored [of m e J enc] by blast
qed


text \<open>
  Claim C10. Clearing a sprint lock leaves \<open>LockedSprintNumber\<close> and
  \<open>LockedSprintHash\<close> as they were: \<open>UnlockSprint\<close> does (it leaves the
  finalized record too, and changes only \<open>Locked\<close>, the identifier set and the
  store), so does \<open>Process\<close> (which
  clears through \<open>UnlockSprint\<close>), and \<open>LockMutex\<close> leaves the hash (its unlock is
  \<open>UnlockSprint\<close> at the old number; the number it then assigns is its own
  argument). After an unlock the old number still gates: \<open>UnlockSprint\<close> with a
  smaller end block changes nothing although nothing is locked. The record written by
  the unlock carries the old number and hash.
\<close>

theorem unlock_frame:
  "LockedSprintNumber (UnlockSprint J m e) = LockedSprintNumber m
   \<and> LockedSprintHash (UnlockSprint J m e) = LockedSprintHash m
   \<and> doExist (UnlockSprint J m e) = doExist m
   \<and> Number (UnlockSprint J m e) = Number m
   \<and> FinHash (UnlockSprint J m e) = FinHash m
   \<and> LockedSprintNumber (Process J ck m b h) = LockedSprintNumber m
   \<and> LockedSprintHash (Process J ck m b h) = LockedSprintHash m
   \<and> LockedSprintHash (snd (LockMutex J m e)) = LockedSprintHash m
   \<and> (LockedSprintNumber m \<le> e \<and> e' < LockedSprintNumber m \<longrightarrow>
        \<not> Locked (UnlockSprint J m e)
      \<and> UnlockSprint J (UnlockSprint J m e) e' = UnlockSprint J m e)
   \<and> (LockedSprintNumber m \<le> e \<and> available (db m)
        \<and> Marshal_LockField J \<lparr>Val = False, LockBlock = LockedSprintNumber m,
              LockHash = LockedSprintHash m, IdList = {}\<rparr> = Some enc
      \<longrightarrow> db_Get (db (UnlockSprint J m e)) lockFieldKey = Inr enc)"
proof (intro conjI impI)
  show "LockedSprintNumber (UnlockSprint J m e) = LockedSprintNumber m"
    by (rule UnlockSprint_frame)
  show "LockedSprintHash (UnlockSprint J m e) = LockedSprintHash m"
    by (rule UnlockSprint_frame)
  show "doExist (UnlockSprint J m e) = doExist m"
    by (rule UnlockSprint_frame)
  show "Number (UnlockSprint J m e) = Number m"
    by (rule UnlockSprint_frame)
  show "FinHash (UnlockSprint J m e) = FinHash m"
    by (rule UnlockSprint_frame)
  show "LockedSprintNumber (Process J ck m b h) = LockedSprintNumber m"
    by (simp add: Process_def UnlockSprint_frame finality_Process_lock)
  show "LockedSprintHash (Process J ck m b h) = LockedSprintHash m"
    by (simp add: Process_def UnlockSprint_frame finality_Process_lock)
  show "LockedSprintHash (snd (LockMutex J m e)) = LockedSprintHash m"
    by (simp add: LockMutex_def UnlockSprint_frame)
next
  assume a: "LockedSprintNumber m \<le> e \<and> e' < LockedSprintNumber m"
  then show "\<not> Locked (UnlockSprint J m e)"
    by (simp add: UnlockSprint_cleared(1))
  from a have "e' < LockedSprintNumber (UnlockSprint J m e)"
    by (simp add: UnlockSprint_frame)
  then show "UnlockSprint J (UnlockSprint J m e) e' = UnlockSprint J m e"
    by (rule UnlockSprint_below)
next
  assume "LockedSprintNumber m \<le> e \<and> available (db m)
        \<and> Marshal_LockField J \<lparr>Val = False, LockBlock = LockedSprintNumber m,
              LockHash = LockedSprintHash m, IdList = {}\<rparr> = Some enc"
  then show "db_Get (db (UnlockSprint J m e)) lockFieldKey = Inr enc"
    using UnlockSprint_stored [of m e J enc] by blast
qed

section \<open>Locking and committing a voting round\<close>

text \<open>
  Claim C3. \<open>LockMutex\<close> returns false, and leaves the state alone, when a finalized
  record exists at or above the end block, and when a lock is held at a number above
  the end block. When it is not rejected for the finalized record and a lock is held at
  a number below the end block, it first clears the old lock, as \<open>UnlockSprint\<close> at
  the old number does, and then adopts the end block. On the ordinary path (not
  rejected for the finalized record, and unlocked or locked at the end block itself) it
  returns true and changes the locked sprint number only. It returns true exactly when
  neither rejection applies, and then the locked sprint number is the end block
  afterwards; every path that returns false leaves the state unchanged.
\<close>

theorem LockMutex_spec:
  "(doExist m \<and> e \<le> Number m \<longrightarrow> LockMutex J m e = (False, m))
   \<and> (Locked m \<and> e < LockedSprintNumber m \<longrightarrow> LockMutex J m e = (False, m))
   \<and> (\<not> (doExist m \<and> e \<le> Number m) \<and> Locked m \<and> LockedSprintNumber m < e \<longrightarrow>
        LockMutex J m e =
          (True, (UnlockSprint J m (LockedSprintNumber m))
                   \<lparr>Locked := False, LockedSprintNumber := e\<rparr>)
      \<and> UnlockSprint J m (LockedSprintNumber m) =
          writeLock J (m\<lparr>Locked := False, LockedMilestoneIDs := {}\<rparr>)
      \<and> \<not> Locked (snd (LockMutex J m e))
      \<and> LockedMilestoneIDs (snd (LockMutex J m e)) = {})
   \<and> (\<not> (doExist m \<and> e \<le> Number m) \<and> \<not> (Locked m \<and> e \<noteq> LockedSprintNumber m) \<longrightarrow>
        LockMutex J m e = (True, m\<lparr>LockedSprintNumber := e\<rparr>))
   \<and> (\<not> (doExist m \<and> e \<le> Number m) \<and> \<not> (Locked m \<and> e < LockedSprintNumber m) \<longrightarrow>
        fst (LockMutex J m e) \<and> LockedSprintNumber (snd (LockMutex J m e)) = e)
   \<and> fst (LockMutex J m e) =
        (\<not> (doExist m \<and> e \<le> Number m) \<and> \<not> (Locked m \<and> e < LockedSprintNumber m))
   \<and> (fst (LockMutex J m e) \<longrightarrow> LockedSprintNumber (snd (LockMutex J m e)) = e)
   \<and> (\<not> fst (LockMutex J m e) \<longrightarrow> snd (LockMutex J m e) = m)"
proof (intro conjI impI)
  assume "doExist m \<and> e \<le> Number m"
  then show "LockMutex J m e = (False, m)"
    by (simp add: LockMutex_def)
next
  assume a: "Locked m \<and> e < LockedSprintNumber m"
  then have "e \<noteq> LockedSprintNumber m" by auto
  with a show "LockMutex J m e = (False, m)"
    by (simp add: LockMutex_def)
next
  assume a: "\<not> (doExist m \<and> e \<le> Number m) \<and> Locked m \<and> LockedSprintNumber m < e"
  then have ne: "e \<noteq> LockedSprintNumber m" and nl: "\<not> e < LockedSprintNumber m"
    by (auto simp: not_less)
  from a ne nl show run: "LockMutex J m e =
          (True, (UnlockSprint J m (LockedSprintNumber m))
                   \<lparr>Locked := False, LockedSprintNumber := e\<rparr>)"
    by (simp add: LockMutex_def)
  show "UnlockSprint J m (LockedSprintNumber m) =
          writeLock J (m\<lparr>Locked := False, LockedMilestoneIDs := {}\<rparr>)"
    by (rule UnlockSprint_reached) simp
  show "\<not> Locked (snd (LockMutex J m e))"
    by (simp add: run)
  show "LockedMilestoneIDs (snd (LockMutex J m e)) = {}"
    by (simp add: run UnlockSprint_cleared(2))
next
  assume "\<not> (doExist m \<and> e \<le> Number m) \<and> \<not> (Locked m \<and> e \<noteq> LockedSprintNumber m)"
  then show "LockMutex J m e = (True, m\<lparr>LockedSprintNumber := e\<rparr>)"
    by (auto simp: LockMutex_def)
next
  assume a: "\<not> (doExist m \<and> e \<le> Number m) \<and> \<not> (Locked m \<and> e < LockedSprintNumber m)"
  then show "fst (LockMutex J m e)"
    by (auto simp: LockMutex_def)
  from a show "LockedSprintNumber (snd (LockMutex J m e)) = e"
    by (auto simp: LockMutex_def)
next
  show "fst (LockMutex J m e) =
        (\<not> (doExist m \<and> e \<le> Number m) \<and> \<not> (Locked m \<and> e < LockedSprintNumber m))"
    by (auto simp: LockMutex_def)
next
  assume "fst (LockMutex J m e)"
  then show "LockedSprintNumber (snd (LockMutex J m e)) = e"
    by (auto simp: LockMutex_def split: if_splits)
next
  assume "\<not> fst (LockMutex J m e)"
  then show "snd (LockMutex J m e) = m"
    by (auto simp: LockMutex_def split: if_splits)
qed

lemma UnlockMutex_eq:
  "UnlockMutex J m c pid eh =
     writeLock J (m\<lparr>Locked := (Locked m \<or> c),
                    LockedSprintHash := (if c then eh else LockedSprintHash m),
                    LockedMilestoneIDs :=
                      (if c then insert pid (LockedMilestoneIDs m) else LockedMilestoneIDs m)\<rparr>)"
  by (simp add: UnlockMutex_def Let_def)

text \<open>
  Claim C6. After \<open>UnlockMutex\<close>, \<open>Locked\<close> is the old \<open>Locked\<close> or the confirm
  flag. When the flag is set, the locked hash is the end hash and the proposal
  identifier is in the identifier set; when it is not, both are as before. The locked
  number is never changed. In either case the lock field is written: the store is the
  result of \<open>WriteLockField\<close> with the new fields (the store as it was when that write
  fails), so when the store is available and the record encodes, the encoding is what
  the lock-field key holds.
\<close>

theorem UnlockMutex_spec:
  "Locked (UnlockMutex J m c pid eh) = (Locked m \<or> c)
   \<and> (c \<longrightarrow> LockedSprintHash (UnlockMutex J m c pid eh) = eh
           \<and> pid \<in> LockedMilestoneIDs (UnlockMutex J m c pid eh))
   \<and> (\<not> c \<longrightarrow> LockedSprintHash (UnlockMutex J m c pid eh) = LockedSprintHash m
           \<and> LockedMilestoneIDs (UnlockMutex J m c pid eh) = LockedMilestoneIDs m)
   \<and> LockedSprintNumber (UnlockMutex J m c pid eh) = LockedSprintNumber m
   \<and> db (UnlockMutex J m c pid eh) =
        (case WriteLockField J (db m) (Locked m \<or> c) (LockedSprintNumber m)
                (if c then eh else LockedSprintHash m)
                (if c then insert pid (LockedMilestoneIDs m) else LockedMilestoneIDs m) of
           Inl err \<Rightarrow> db m | Inr db' \<Rightarrow> db')
   \<and> (available (db m)
        \<and> Marshal_LockField J \<lparr>Val = (Locked m \<or> c), LockBlock = LockedSprintNumber m,
              LockHash = (if c then eh else LockedSprintHash m),
              IdList = (if c then insert pid (LockedMilestoneIDs m)
                        else LockedMilestoneIDs m)\<rparr> = Some enc
      \<longrightarrow> db_Get (db (UnlockMutex J m c pid eh)) lockFieldKey = Inr enc)"
proof (intro conjI impI)
  show "Locked (UnlockMutex J m c pid eh) = (Locked m \<or> c)"
    by (simp add: UnlockMutex_eq writeLock_fields)
  show "LockedSprintNumber (UnlockMutex J m c pid eh) = LockedSprintNumber m"
    by (simp add: UnlockMutex_eq writeLock_fields)
  show "db (UnlockMutex J m c pid eh) =
        (case WriteLockField J (db m) (Locked m \<or> c) (LockedSprintNumber m)
                (if c then eh else LockedSprintHash m)
                (if c then insert pid (LockedMilestoneIDs m) else LockedMilestoneIDs m) of
           Inl err \<Rightarrow> db m | Inr db' \<Rightarrow> db')"
    by (simp add: UnlockMutex_eq writeLock_db split: sum.split)
next
  assume c
  then show "LockedSprintHash (UnlockMutex J m c pid eh) = eh"
    by (simp add: UnlockMutex_eq writeLock_fields)
  from \<open>c\<close> show "pid \<in> LockedMilestoneIDs (UnlockMutex J m c pid eh)"
    by (simp add: UnlockMutex_eq writeLock_fields)
next
  assume "\<not> c"
  then show "LockedSprintHash (UnlockMutex J m c pid eh) = LockedSprintHash m"
    by (simp add: UnlockMutex_eq writeLock_fields)
  from \<open>\<not> c\<close> show "LockedMilestoneIDs (UnlockMutex J m c pid eh) = LockedMilestoneIDs m"
    by (simp add: UnlockMutex_eq writeLock_fields)
next
  assume a: "available (db m)
        \<and> Marshal_LockField J \<lparr>Val = (Locked m \<or> c), LockBlock = LockedSprintNumber m,
              LockHash = (if c then eh else LockedSprintHash m),
              IdList = (if c then insert pid (LockedMilestoneIDs m)
                        else LockedMilestoneIDs m)\<rparr> = Some enc"
  then have "WriteLockField J (db m) (Locked m \<or> c) (LockedSprintNumber m)
                (if c then eh else LockedSprintHash m)
                (if c then insert pid (LockedMilestoneIDs m) else LockedMilestoneIDs m)
             = Inr ((db m)\<lparr>entries := (entries (db m))(lockFieldKey \<mapsto> enc)\<rparr>)"
    using WriteLockField_stored by blast
  with a show "db_Get (db (UnlockMutex J m c pid eh)) lockFieldKey = Inr enc"
    by (simp add: UnlockMutex_eq writeLock_db db_Get_def)
qed


section \<open>The lock invariant\<close>

lemma UnlockSprint_lock:
  "(Locked (UnlockSprint J m e) = Locked m
      \<and> LockedMilestoneIDs (UnlockSprint J m e) = LockedMilestoneIDs m)
   \<or> (\<not> Locked (UnlockSprint J m e) \<and> LockedMilestoneIDs (UnlockSprint J m e) = {})"
proof (cases "e < LockedSprintNumber m")
  case True
  then show ?thesis by (simp add: UnlockSprint_below)
next
  case False
  then have "LockedSprintNumber m \<le> e" by (simp add: not_less)
  then show ?thesis by (simp add: UnlockSprint_cleared)
qed

lemma LockMutex_lock:
  "(Locked (snd (LockMutex J m e)) = Locked m
      \<and> LockedMilestoneIDs (snd (LockMutex J m e)) = LockedMilestoneIDs m)
   \<or> (\<not> Locked (snd (LockMutex J m e)) \<and> LockedMilestoneIDs (snd (LockMutex J m e)) = {})"
  by (simp add: LockMutex_def UnlockSprint_cleared(2))

lemma Process_lock:
  "(Locked (Process J ck m b h) = Locked m
      \<and> LockedMilestoneIDs (Process J ck m b h) = LockedMilestoneIDs m)
   \<or> (\<not> Locked (Process J ck m b h) \<and> LockedMilestoneIDs (Process J ck m b h) = {})"
proof (cases "Number m = b")
  case True
  then show ?thesis by (simp add: Process_def)
next
  case False
  then have "Process J ck m b h = UnlockSprint J (finality_Process J ck m b h) b"
    by (simp add: Process_def)
  then show ?thesis
    using UnlockSprint_lock [of J "finality_Process J ck m b h" b]
    by (simp add: finality_Process_lock)
qed

lemma RemoveMilestoneID_lock:
  "LockedMilestoneIDs (RemoveMilestoneID J m pid) = LockedMilestoneIDs m - {pid}"
  "Locked (RemoveMilestoneID J m pid) = (Locked m \<and> LockedMilestoneIDs m - {pid} \<noteq> {})"
  by (simp_all add: RemoveMilestoneID_def Let_def writeLock_fields)

lemma UnlockMutex_lock:
  "Locked (UnlockMutex J m c pid eh) = (Locked m \<or> c)"
  "LockedMilestoneIDs (UnlockMutex J m c pid eh) =
     (if c then insert pid (LockedMilestoneIDs m) else LockedMilestoneIDs m)"
  by (simp_all add: UnlockMutex_eq writeLock_fields)

lemma lockInv_step:
  "lockInv m \<Longrightarrow>
   (Locked r = Locked m \<and> LockedMilestoneIDs r = LockedMilestoneIDs m)
     \<or> (\<not> Locked r \<and> LockedMilestoneIDs r = {}) \<Longrightarrow> lockInv r"
  by (auto simp: lockInv_def)

lemma purge_step:
  "(Locked r = Locked m \<and> LockedMilestoneIDs r = LockedMilestoneIDs m)
     \<or> (\<not> Locked r \<and> LockedMilestoneIDs r = {}) \<Longrightarrow>
   LockedMilestoneIDs m \<noteq> {} \<and> LockedMilestoneIDs r = {} \<Longrightarrow> \<not> Locked r"
  by auto

text \<open>
  Claim C5. The predicate "the identifier set is empty whenever \<open>Locked\<close> is false" is
  preserved by \<open>LockMutex\<close>, \<open>UnlockMutex\<close>, \<open>UnlockSprint\<close>, \<open>RemoveMilestoneID\<close>
  and \<open>Process\<close>. Removing the last remaining identifier clears \<open>Locked\<close>, and
  whenever an operation takes a non-empty identifier set to the empty one, \<open>Locked\<close>
  is false in the state it returns.
\<close>

theorem lockInv_preserved:
  assumes "lockInv m"
  shows "lockInv (snd (LockMutex J m e))
       \<and> lockInv (UnlockMutex J m c pid eh)
       \<and> lockInv (UnlockSprint J m e)
       \<and> lockInv (RemoveMilestoneID J m pid)
       \<and> lockInv (Process J ck m b h)
       \<and> (LockedMilestoneIDs m = {pid} \<longrightarrow> \<not> Locked (RemoveMilestoneID J m pid))
       \<and> (LockedMilestoneIDs m \<noteq> {} \<and> LockedMilestoneIDs (UnlockSprint J m e) = {}
            \<longrightarrow> \<not> Locked (UnlockSprint J m e))
       \<and> (LockedMilestoneIDs m \<noteq> {} \<and> LockedMilestoneIDs (snd (LockMutex J m e)) = {}
            \<longrightarrow> \<not> Locked (snd (LockMutex J m e)))
       \<and> (LockedMilestoneIDs m \<noteq> {} \<and> LockedMilestoneIDs (Process J ck m b h) = {}
            \<longrightarrow> \<not> Locked (Process J ck m b h))
       \<and> (LockedMilestoneIDs m \<noteq> {} \<and> LockedMilestoneIDs (RemoveMilestoneID J m pid) = {}
            \<longrightarrow> \<not> Locked (RemoveMilestoneID J m pid))"
proof (intro conjI impI)
  show "lockInv (snd (LockMutex J m e))"
    using assms LockMutex_lock by (rule lockInv_step)
  show "lockInv (UnlockSprint J m e)"
    using assms UnlockSprint_lock by (rule lockInv_step)
  show "lockInv (Process J ck m b h)"
    using assms Process_lock by (rule lockInv_step)
  show "lockInv (UnlockMutex J m c pid eh)"
    using assms by (simp add: lockInv_def UnlockMutex_lock)
  show "lockInv (RemoveMilestoneID J m pid)"
    using assms by (auto simp: lockInv_def RemoveMilestoneID_lock)
next
  assume "LockedMilestoneIDs m = {pid}"
  then show "\<not> Locked (RemoveMilestoneID J m pid)"
    by (simp add: RemoveMilestoneID_lock)
next
  assume "LockedMilestoneIDs m \<noteq> {} \<and> LockedMilestoneIDs (UnlockSprint J m e) = {}"
  with UnlockSprint_lock show "\<not> Locked (UnlockSprint J m e)" by (rule purge_step)
next
  assume "LockedMilestoneIDs m \<noteq> {} \<and> LockedMilestoneIDs (snd (LockMutex J m e)) = {}"
  with LockMutex_lock show "\<not> Locked (snd (LockMutex J m e))" by (rule purge_step)
next
  assume "LockedMilestoneIDs m \<noteq> {} \<and> LockedMilestoneIDs (Process J ck m b h) = {}"
  with Process_lock show "\<not> Locked (Process J ck m b h)" by (rule purge_step)
next
  assume "LockedMilestoneIDs m \<noteq> {} \<and> LockedMilestoneIDs (RemoveMilestoneID J m pid) = {}"
  then show "\<not> Locked (RemoveMilestoneID J m pid)"
    by (simp add: RemoveMilestoneID_lock)
qed

section \<open>Confirmation of a milestone\<close>

text \<open>
  Claim C4. \<open>Process\<close> returns the state as it was when the block equals the finalized
  number, whatever the hash. For any other block, lower ones included, the finalized
  record becomes the block and the hash, and then \<open>UnlockSprint\<close> runs at the block:
  a lock whose number is at or below the block is cleared, a lock above it is kept.
\<close>

theorem Process_spec:
  "(Number m = b \<longrightarrow> Process J ck m b h = m)
   \<and> (Number m \<noteq> b \<longrightarrow>
        Process J ck m b h = UnlockSprint J (finality_Process J ck m b h) b
      \<and> Number (Process J ck m b h) = b
      \<and> FinHash (Process J ck m b h) = h
      \<and> (LockedSprintNumber m \<le> b \<longrightarrow>
           \<not> Locked (Process J ck m b h) \<and> LockedMilestoneIDs (Process J ck m b h) = {})
      \<and> (b < LockedSprintNumber m \<longrightarrow>
           Locked (Process J ck m b h) = Locked m
         \<and> LockedMilestoneIDs (Process J ck m b h) = LockedMilestoneIDs m))"
proof (intro conjI impI)
  assume "Number m = b"
  then show "Process J ck m b h = m" by (simp add: Process_def)
next
  assume ne: "Number m \<noteq> b"
  then show run: "Process J ck m b h = UnlockSprint J (finality_Process J ck m b h) b"
    by (simp add: Process_def)
  show "Number (Process J ck m b h) = b"
    by (simp add: run UnlockSprint_frame finality_Process_fields)
  show "FinHash (Process J ck m b h) = h"
    by (simp add: run UnlockSprint_frame finality_Process_fields)
  {
    assume "LockedSprintNumber m \<le> b"
    then have le: "LockedSprintNumber (finality_Process J ck m b h) \<le> b"
      by (simp add: finality_Process_lock)
    show "\<not> Locked (Process J ck m b h)"
      by (simp add: run UnlockSprint_cleared(1) [OF le])
    show "LockedMilestoneIDs (Process J ck m b h) = {}"
      by (simp add: run UnlockSprint_cleared(2) [OF le])
  }
  {
    assume "b < LockedSprintNumber m"
    then have lt: "b < LockedSprintNumber (finality_Process J ck m b h)"
      by (simp add: finality_Process_lock)
    show "Locked (Process J ck m b h) = Locked m"
      by (simp add: run UnlockSprint_below [OF lt] finality_Process_lock)
    show "LockedMilestoneIDs (Process J ck m b h) = LockedMilestoneIDs m"
      by (simp add: run UnlockSprint_below [OF lt] finality_Process_lock)
  }
qed


section \<open>Chain validity\<close>

lemma IsReorgAllowed_returns:
  "chain \<noteq> [] \<Longrightarrow> \<exists>r. IsReorgAllowed chain n h = Inr r"
  by (auto simp: IsReorgAllowed_def)

lemma IsReorgAllowed_panics: "(IsReorgAllowed chain n h = Inl IndexOutOfRange) = (chain = [])"
  by (simp add: IsReorgAllowed_def)

text \<open>
  Claim C1. With the milestone flag off, \<open>IsValidChain\<close> returns true. With the flag
  on it returns true exactly when the base check passes and the guard is not locked or
  \<open>IsReorgAllowed\<close> at the locked number and hash returns true; for a non-empty
  chain it returns that truth value.
\<close>

theorem IsValidChain_spec:
  "(\<not> flag \<longrightarrow> IsValidChain flag base m cur chain = Inr True)
   \<and> (flag \<longrightarrow>
        (IsValidChain flag base m cur chain = Inr True) =
        (base (finality.truncate m) cur chain
          \<and> (\<not> Locked m
              \<or> IsReorgAllowed chain (LockedSprintNumber m) (LockedSprintHash m) = Inr True)))
   \<and> (flag \<and> chain \<noteq> [] \<longrightarrow>
        IsValidChain flag base m cur chain =
          Inr (base (finality.truncate m) cur chain
                \<and> (\<not> Locked m
                    \<or> IsReorgAllowed chain (LockedSprintNumber m) (LockedSprintHash m)
                        = Inr True)))"
proof (intro conjI impI)
  assume "\<not> flag"
  then show "IsValidChain flag base m cur chain = Inr True"
    by (simp add: IsValidChain_def)
next
  assume flag
  then show "(IsValidChain flag base m cur chain = Inr True) =
        (base (finality.truncate m) cur chain
          \<and> (\<not> Locked m
              \<or> IsReorgAllowed chain (LockedSprintNumber m) (LockedSprintHash m) = Inr True))"
    by (cases "IsReorgAllowed chain (LockedSprintNumber m) (LockedSprintHash m)")
      (auto simp: IsValidChain_def)
next
  assume a: "flag \<and> chain \<noteq> []"
  then obtain r where "IsReorgAllowed chain (LockedSprintNumber m) (LockedSprintHash m) = Inr r"
    using IsReorgAllowed_returns by blast
  with a show "IsValidChain flag base m cur chain =
          Inr (base (finality.truncate m) cur chain
                \<and> (\<not> Locked m
                    \<or> IsReorgAllowed chain (LockedSprintNumber m) (LockedSprintHash m)
                        = Inr True))"
    by (simp add: IsValidChain_def)
qed

text \<open>
  Claim C9. \<open>IsReorgAllowed\<close> indexes the last element of the chain without a guard:
  on the empty chain the index is out of range, and this is the only case in which it
  does not return a value. \<open>IsValidChain\<close> has no emptiness check of its own: with
  the flag on, the guard locked and a base check that passes the empty chain, the panic
  reaches its caller.
\<close>

theorem IsReorgAllowed_empty_chain:
  "IsReorgAllowed [] n h = Inl IndexOutOfRange
   \<and> (IsReorgAllowed chain n h = Inl IndexOutOfRange) = (chain = [])
   \<and> (chain \<noteq> [] \<longrightarrow> (\<exists>r. IsReorgAllowed chain n h = Inr r))
   \<and> (flag \<and> base (finality.truncate m) cur [] \<and> Locked m \<longrightarrow>
        IsValidChain flag base m cur [] = Inl IndexOutOfRange)"
proof (intro conjI impI)
  show "IsReorgAllowed [] n h = Inl IndexOutOfRange"
    by (simp add: IsReorgAllowed_def)
  show "(IsReorgAllowed chain n h = Inl IndexOutOfRange) = (chain = [])"
    by (rule IsReorgAllowed_panics)
next
  assume "chain \<noteq> []"
  then show "\<exists>r. IsReorgAllowed chain n h = Inr r"
    by (rule IsReorgAllowed_returns)
next
  assume "flag \<and> base (finality.truncate m) cur [] \<and> Locked m"
  then show "IsValidChain flag base m cur [] = Inl IndexOutOfRange"
    by (simp add: IsValidChain_def IsReorgAllowed_def)
qed

section \<open>Round trip of the finality record\<close>

lemma getKey_eq:
  "getKey ck T = (\<lparr>Block = 0, Hash = 0\<rparr>, snd (getKey ck T))"
  by (simp add: getKey_def clone_def)

lemma ReadFinality_eq:
  "ReadFinality J ck T d =
     (case db_Get d (snd (getKey ck T)) of
        Inl err \<Rightarrow> Inl (EmptyResponse err)
      | Inr data \<Rightarrow>
          if data = [] then Inl ErrEmptyLastFinality
          else (case Unmarshal_Finality J data \<lparr>Block = 0, Hash = 0\<rparr> of
                  None \<Rightarrow> Inl ErrIncorrectFinality
                | Some decoded \<Rightarrow> Inr (Block decoded, Hash decoded)))"
  by (simp add: ReadFinality_def getKey_def clone_def block_def
      split: sum.split option.split)

lemma WriteLastFinality_eq:
  "WriteLastFinality J ck T d n h =
     (case Marshal_Finality J \<lparr>Block = n, Hash = h\<rparr> of
        None \<Rightarrow> Inl ErrIncorrectFinalityToStore
      | Some enc \<Rightarrow>
          if available d then Inr (d\<lparr>entries := (entries d)(snd (getKey ck T) \<mapsto> enc)\<rparr>)
          else Inl ErrDBNotResponding)"
  by (simp add: WriteLastFinality_def getKey_def clone_def set_Finality_def db_Put_def
      split: option.split)

text \<open>
  Claim C8. On an available store, when the JSON library encodes the record to
  non-empty bytes that decode to the same record, \<open>WriteLastFinality\<close> succeeds and
  \<open>ReadFinality\<close> on the store it returns gives exactly the number and hash written.
  \<open>ReadFinality\<close> returns the wrapped not-found error of the store when the
  variant's key is absent, \<open>ErrEmptyLastFinality\<close> when the key holds an empty value,
  and \<open>ErrIncorrectFinality\<close> when the stored bytes fail to decode.
\<close>

theorem finality_round_trip:
  "(available d \<and> Marshal_Finality J \<lparr>Block = n, Hash = h\<rparr> = Some enc \<and> enc \<noteq> []
      \<and> Unmarshal_Finality J enc \<lparr>Block = 0, Hash = 0\<rparr> = Some \<lparr>Block = n, Hash = h\<rparr>
    \<longrightarrow> WriteLastFinality J ck T d n h
          = Inr (d\<lparr>entries := (entries d)(snd (getKey ck T) \<mapsto> enc)\<rparr>)
      \<and> ReadFinality J ck T (d\<lparr>entries := (entries d)(snd (getKey ck T) \<mapsto> enc)\<rparr>)
          = Inr (n, h))
   \<and> (available d \<and> entries d (snd (getKey ck T)) = None
        \<longrightarrow> ReadFinality J ck T d = Inl (EmptyResponse ErrNotFound))
   \<and> (available d \<and> entries d (snd (getKey ck T)) = Some []
        \<longrightarrow> ReadFinality J ck T d = Inl ErrEmptyLastFinality)
   \<and> (available d \<and> entries d (snd (getKey ck T)) = Some data \<and> data \<noteq> []
        \<and> Unmarshal_Finality J data \<lparr>Block = 0, Hash = 0\<rparr> = None
        \<longrightarrow> ReadFinality J ck T d = Inl ErrIncorrectFinality)"
proof (intro conjI impI)
  assume a: "available d \<and> Marshal_Finality J \<lparr>Block = n, Hash = h\<rparr> = Some enc \<and> enc \<noteq> []
      \<and> Unmarshal_Finality J enc \<lparr>Block = 0, Hash = 0\<rparr> = Some \<lparr>Block = n, Hash = h\<rparr>"
  then show "WriteLastFinality J ck T d n h
          = Inr (d\<lparr>entries := (entries d)(snd (getKey ck T) \<mapsto> enc)\<rparr>)"
    by (simp add: WriteLastFinality_eq)
  from a show "ReadFinality J ck T (d\<lparr>entries := (entries d)(snd (getKey ck T) \<mapsto> enc)\<rparr>)
          = Inr (n, h)"
    by (simp add: ReadFinality_eq db_Get_def)
next
  assume "available d \<and> entries d (snd (getKey ck T)) = None"
  then show "ReadFinality J ck T d = Inl (EmptyResponse ErrNotFound)"
    by (simp add: ReadFinality_eq db_Get_def)
next
  assume "available d \<and> entries d (snd (getKey ck T)) = Some []"
  then show "ReadFinality J ck T d = Inl ErrEmptyLastFinality"
    by (simp add: ReadFinality_eq db_Get_def)
next
  assume "available d \<and> entries d (snd (getKey ck T)) = Some data \<and> data \<noteq> []
        \<and> Unmarshal_Finality J data \<lparr>Block = 0, Hash = 0\<rparr> = None"
  then show "ReadFinality J ck T d = Inl ErrIncorrectFinality"
    by (simp add: ReadFinality_eq db_Get_def)
qed


section \<open>The theorems on the example guard\<close>

lemma exampleGuard_simps:
  "db exampleGuard = exampleStore" "doExist exampleGuard" "Number exampleGuard = 50"
  "FinHash exampleGuard = 3" "LockedSprintNumber exampleGuard = 100"
  "LockedSprintHash exampleGuard = 7" "Locked exampleGuard"
  "LockedMilestoneIDs exampleGuard = {''a''}" "available exampleStore"
  "entries exampleStore = Map.empty"
  by (simp_all add: exampleGuard_def exampleStore_def)

lemma exampleJson_simps:
  "Marshal_LockField exampleJson l = Some (if Val l then ''locked'' else ''unlocked'')"
  "Marshal_Finality exampleJson \<lparr>Block = 5, Hash = 7\<rparr> = Some ''{Block:5,Hash:7}''"
  "Unmarshal_Finality exampleJson ''{Block:5,Hash:7}'' \<lparr>Block = 0, Hash = 0\<rparr>
     = Some \<lparr>Block = 5, Hash = 7\<rparr>"
  "Unmarshal_Finality exampleJson ''garbage'' \<lparr>Block = 0, Hash = 0\<rparr> = None"
  by (simp_all add: exampleJson_def)

lemma example_write:
  "WriteLockField exampleJson exampleStore v n h ids =
     Inr (exampleStore\<lparr>entries :=
            (entries exampleStore)(lockFieldKey \<mapsto> (if v then ''locked'' else ''unlocked''))\<rparr>)"
  by (simp add: WriteLockField_def db_Put_def exampleJson_simps exampleGuard_simps)

text \<open>The example guard, locked at 100: an unlock at 90 and one at 150.\<close>

theorem UnlockSprint_spec_witness:
  "UnlockSprint exampleJson exampleGuard 90 = exampleGuard
   \<and> \<not> Locked (UnlockSprint exampleJson exampleGuard 150)
   \<and> LockedMilestoneIDs (UnlockSprint exampleJson exampleGuard 150) = {}
   \<and> db_Get (db (UnlockSprint exampleJson exampleGuard 150)) lockFieldKey = Inr ''unlocked''"
  using UnlockSprint_spec [of 90 exampleGuard exampleJson]
    UnlockSprint_spec [of 150 exampleGuard exampleJson "''unlocked''"]
  by (simp add: exampleGuard_simps exampleJson_simps example_write db_Get_def)

text \<open>After the unlock at 150 the number is still 100, and an unlock at 90 changes nothing.\<close>

theorem unlock_frame_witness:
  "LockedSprintNumber (UnlockSprint exampleJson exampleGuard 150) = 100
   \<and> LockedSprintHash (UnlockSprint exampleJson exampleGuard 150) = 7
   \<and> \<not> Locked (UnlockSprint exampleJson exampleGuard 150)
   \<and> UnlockSprint exampleJson (UnlockSprint exampleJson exampleGuard 150) 90
       = UnlockSprint exampleJson exampleGuard 150
   \<and> db_Get (db (UnlockSprint exampleJson exampleGuard 150)) lockFieldKey = Inr ''unlocked''"
  using unlock_frame [of exampleJson exampleGuard 150 _ _ _ 90 "''unlocked''"]
  by (simp add: exampleGuard_simps exampleJson_simps example_write db_Get_def)

text \<open>
  The example guard has a finalized record at 50 and a lock at 100: \<open>LockMutex\<close> at 50,
  at 90, at 150 and at 100 itself; then on the guard with no lock held, and on a guard
  with no finalized record and no lock.
\<close>

theorem LockMutex_spec_witness:
  "LockMutex exampleJson exampleGuard 50 = (False, exampleGuard)
   \<and> LockMutex exampleJson exampleGuard 90 = (False, exampleGuard)
   \<and> fst (LockMutex exampleJson exampleGuard 150)
   \<and> LockedSprintNumber (snd (LockMutex exampleJson exampleGuard 150)) = 150
   \<and> \<not> Locked (snd (LockMutex exampleJson exampleGuard 150))
   \<and> LockedMilestoneIDs (snd (LockMutex exampleJson exampleGuard 150)) = {}
   \<and> LockMutex exampleJson exampleGuard 100
       = (True, exampleGuard\<lparr>LockedSprintNumber := 100\<rparr>)
   \<and> LockMutex exampleJson (exampleGuard\<lparr>Locked := False, LockedMilestoneIDs := {}\<rparr>) 60
       = (True, exampleGuard\<lparr>Locked := False, LockedMilestoneIDs := {},
                              LockedSprintNumber := 60\<rparr>)
   \<and> LockMutex exampleJson (exampleGuard\<lparr>doExist := False, Number := 0, Locked := False,
                                           LockedMilestoneIDs := {}\<rparr>) 0
       = (True, exampleGuard\<lparr>doExist := False, Number := 0, Locked := False,
                              LockedMilestoneIDs := {}, LockedSprintNumber := 0\<rparr>)"
proof -
  let ?fresh = "exampleGuard\<lparr>Locked := False, LockedMilestoneIDs := {}\<rparr>"
  let ?genesis = "exampleGuard\<lparr>doExist := False, Number := 0, Locked := False,
                                LockedMilestoneIDs := {}\<rparr>"
  have stale: "doExist exampleGuard \<and> 50 \<le> Number exampleGuard"
    by (simp add: exampleGuard_simps)
  have older: "Locked exampleGuard \<and> 90 < LockedSprintNumber exampleGuard"
    by (simp add: exampleGuard_simps)
  have newer: "\<not> (doExist exampleGuard \<and> 150 \<le> Number exampleGuard)
      \<and> Locked exampleGuard \<and> LockedSprintNumber exampleGuard < 150"
    by (simp add: exampleGuard_simps)
  have same: "\<not> (doExist exampleGuard \<and> 100 \<le> Number exampleGuard)
      \<and> \<not> (Locked exampleGuard \<and> 100 \<noteq> LockedSprintNumber exampleGuard)"
    by (simp add: exampleGuard_simps)
  have fresh: "\<not> (doExist ?fresh \<and> 60 \<le> Number ?fresh)
      \<and> \<not> (Locked ?fresh \<and> 60 \<noteq> LockedSprintNumber ?fresh)"
    by (simp add: exampleGuard_simps)
  have genesis: "\<not> (doExist ?genesis \<and> 0 \<le> Number ?genesis)
      \<and> \<not> (Locked ?genesis \<and> 0 \<noteq> LockedSprintNumber ?genesis)"
    by (simp add: exampleGuard_simps)
  from LockMutex_spec [of exampleGuard 50 exampleJson] stale
  have 1: "LockMutex exampleJson exampleGuard 50 = (False, exampleGuard)" by simp
  from LockMutex_spec [of exampleGuard 90 exampleJson] older
  have 2: "LockMutex exampleJson exampleGuard 90 = (False, exampleGuard)" by simp
  from LockMutex_spec [of exampleGuard 150 exampleJson] newer
  have 3: "fst (LockMutex exampleJson exampleGuard 150)
      \<and> LockedSprintNumber (snd (LockMutex exampleJson exampleGuard 150)) = 150
      \<and> \<not> Locked (snd (LockMutex exampleJson exampleGuard 150))
      \<and> LockedMilestoneIDs (snd (LockMutex exampleJson exampleGuard 150)) = {}"
    by (simp add: writeLock_fields)
  from LockMutex_spec [of exampleGuard 100 exampleJson] same
  have 4: "LockMutex exampleJson exampleGuard 100
      = (True, exampleGuard\<lparr>LockedSprintNumber := 100\<rparr>)" by simp
  from LockMutex_spec [of ?fresh 60 exampleJson] fresh
  have 5: "LockMutex exampleJson ?fresh 60 = (True, ?fresh\<lparr>LockedSprintNumber := 60\<rparr>)"
    by simp
  from LockMutex_spec [of ?genesis 0 exampleJson] genesis
  have 6: "LockMutex exampleJson ?genesis 0 = (True, ?genesis\<lparr>LockedSprintNumber := 0\<rparr>)"
    by simp
  from 1 2 3 4 5 6 show ?thesis by simp
qed

text \<open>A confirming and a non-confirming round on the example guard.\<close>

theorem UnlockMutex_spec_witness:
  "Locked (UnlockMutex exampleJson exampleGuard True ''b'' 9)
   \<and> LockedSprintHash (UnlockMutex exampleJson exampleGuard True ''b'' 9) = 9
   \<and> ''b'' \<in> LockedMilestoneIDs (UnlockMutex exampleJson exampleGuard True ''b'' 9)
   \<and> db_Get (db (UnlockMutex exampleJson exampleGuard True ''b'' 9)) lockFieldKey
       = Inr ''locked''
   \<and> Locked (UnlockMutex exampleJson exampleGuard False ''b'' 9)
   \<and> LockedSprintHash (UnlockMutex exampleJson exampleGuard False ''b'' 9) = 7
   \<and> LockedMilestoneIDs (UnlockMutex exampleJson exampleGuard False ''b'' 9) = {''a''}"
  using UnlockMutex_spec [of exampleJson exampleGuard True "''b''" 9 "''locked''"]
    UnlockMutex_spec [of exampleJson exampleGuard False "''b''" 9 "''locked''"]
  by (simp add: exampleGuard_simps exampleJson_simps example_write db_Get_def)

text \<open>
  The example guard is finalized at \<open>(50, 3)\<close>: a confirmation at 50 with another hash,
  one at the lower block 40 and one at 120, past the lock.
\<close>

theorem Process_spec_witness:
  "Process exampleJson ''LastCheckpoint'' exampleGuard 50 9 = exampleGuard
   \<and> Number (Process exampleJson ''LastCheckpoint'' exampleGuard 40 9) = 40
   \<and> FinHash (Process exampleJson ''LastCheckpoint'' exampleGuard 40 9) = 9
   \<and> Locked (Process exampleJson ''LastCheckpoint'' exampleGuard 40 9)
   \<and> LockedMilestoneIDs (Process exampleJson ''LastCheckpoint'' exampleGuard 40 9) = {''a''}
   \<and> Number (Process exampleJson ''LastCheckpoint'' exampleGuard 120 9) = 120
   \<and> \<not> Locked (Process exampleJson ''LastCheckpoint'' exampleGuard 120 9)
   \<and> LockedMilestoneIDs (Process exampleJson ''LastCheckpoint'' exampleGuard 120 9) = {}"
proof -
  let ?P = "Process exampleJson ''LastCheckpoint'' exampleGuard"
  have same: "Number exampleGuard = 50"
    and lower: "Number exampleGuard \<noteq> 40"
    and higher: "Number exampleGuard \<noteq> 120"
    and below: "40 < LockedSprintNumber exampleGuard"
    and reached: "LockedSprintNumber exampleGuard \<le> 120"
    by (simp_all add: exampleGuard_simps)
  from Process_spec [of exampleGuard 50 exampleJson "''LastCheckpoint''" 9] same
  have 1: "?P 50 9 = exampleGuard" by blast
  from Process_spec [of exampleGuard 40 exampleJson "''LastCheckpoint''" 9] lower below
  have 2: "Number (?P 40 9) = 40 \<and> FinHash (?P 40 9) = 9
      \<and> Locked (?P 40 9) = Locked exampleGuard
      \<and> LockedMilestoneIDs (?P 40 9) = LockedMilestoneIDs exampleGuard" by blast
  from Process_spec [of exampleGuard 120 exampleJson "''LastCheckpoint''" 9] higher reached
  have 3: "Number (?P 120 9) = 120 \<and> \<not> Locked (?P 120 9)
      \<and> LockedMilestoneIDs (?P 120 9) = {}" by blast
  from 1 2 3 show ?thesis by (simp add: exampleGuard_simps)
qed


text \<open>The example guard satisfies the invariant; its only identifier is \<open>a\<close>.\<close>

theorem lockInv_preserved_witness:
  "lockInv exampleGuard
   \<and> lockInv (snd (LockMutex exampleJson exampleGuard 150))
   \<and> lockInv (UnlockMutex exampleJson exampleGuard False ''a'' 9)
   \<and> lockInv (UnlockSprint exampleJson exampleGuard 150)
   \<and> lockInv (RemoveMilestoneID exampleJson exampleGuard ''a'')
   \<and> lockInv (Process exampleJson ''LastCheckpoint'' exampleGuard 120 9)
   \<and> \<not> Locked (RemoveMilestoneID exampleJson exampleGuard ''a'')
   \<and> \<not> Locked (UnlockSprint exampleJson exampleGuard 150)"
proof -
  have inv: "lockInv exampleGuard"
    by (simp add: lockInv_def exampleGuard_simps)
  have last: "LockedMilestoneIDs exampleGuard = {''a''}"
    by (simp add: exampleGuard_simps)
  have purged: "LockedMilestoneIDs exampleGuard \<noteq> {}
      \<and> LockedMilestoneIDs (UnlockSprint exampleJson exampleGuard 150) = {}"
    by (simp add: exampleGuard_simps UnlockSprint_def purgeMilestoneIDsList_def
        writeLock_fields)
  from lockInv_preserved [OF inv, of exampleJson 150 False "''a''" 9
      "''LastCheckpoint''" 120 9] inv last purged
  show ?thesis by blast
qed

text \<open>
  The example guard with the flag off and with the flag on, for a base check that
  passes chains ending above the finalized number.
\<close>

theorem IsValidChain_spec_witness:
  "IsValidChain False (\<lambda>f cur chain. False) exampleGuard \<lparr>hdrNumber = 150, hdrHash = 3\<rparr>
      [\<lparr>hdrNumber = 100, hdrHash = 8\<rparr>, \<lparr>hdrNumber = 150, hdrHash = 3\<rparr>] = Inr True
   \<and> IsValidChain True (\<lambda>f cur chain. Number f < hdrNumber (last chain)) exampleGuard
      \<lparr>hdrNumber = 150, hdrHash = 3\<rparr>
      [\<lparr>hdrNumber = 100, hdrHash = 7\<rparr>, \<lparr>hdrNumber = 150, hdrHash = 3\<rparr>] = Inr True
   \<and> IsValidChain True (\<lambda>f cur chain. Number f < hdrNumber (last chain)) exampleGuard
      \<lparr>hdrNumber = 150, hdrHash = 3\<rparr>
      [\<lparr>hdrNumber = 100, hdrHash = 8\<rparr>, \<lparr>hdrNumber = 150, hdrHash = 3\<rparr>] = Inr False"
proof -
  let ?cur = "\<lparr>hdrNumber = 150 :: uint64, hdrHash = 3 :: hash\<rparr>"
  let ?good = "[\<lparr>hdrNumber = 100 :: uint64, hdrHash = 7 :: hash\<rparr>, ?cur]"
  let ?bad = "[\<lparr>hdrNumber = 100 :: uint64, hdrHash = 8 :: hash\<rparr>, ?cur]"
  let ?base = "\<lambda>(f :: finality) (cur :: header) chain. Number f < hdrNumber (last chain)"
  have off: "\<not> False" by simp
  from IsValidChain_spec [of False "\<lambda>f cur chain. False" exampleGuard ?cur ?bad] off
  have 1: "IsValidChain False (\<lambda>f cur chain. False) exampleGuard ?cur ?bad = Inr True"
    by blast
  have on: "True \<and> ?good \<noteq> []" "True \<and> ?bad \<noteq> []" by simp_all
  have base: "?base (finality.truncate exampleGuard) ?cur ?good"
    "?base (finality.truncate exampleGuard) ?cur ?bad"
    by (simp_all add: exampleGuard_def finality.truncate_def finality.defs)
  have reorg:
    "IsReorgAllowed ?good (LockedSprintNumber exampleGuard) (LockedSprintHash exampleGuard)
       = Inr True"
    "IsReorgAllowed ?bad (LockedSprintNumber exampleGuard) (LockedSprintHash exampleGuard)
       \<noteq> Inr True"
    by (simp_all add: IsReorgAllowed_def exampleGuard_simps)
  have locked: "Locked exampleGuard" by (simp add: exampleGuard_simps)
  from IsValidChain_spec [of True ?base exampleGuard ?cur ?good] on(1) base(1) reorg(1)
  have 2: "IsValidChain True ?base exampleGuard ?cur ?good = Inr True"
    by simp
  from IsValidChain_spec [of True ?base exampleGuard ?cur ?bad] on(2) base(2) reorg(2) locked
  have 3: "IsValidChain True ?base exampleGuard ?cur ?bad = Inr False"
    by simp
  from 1 2 3 show ?thesis by simp
qed

text \<open>The empty chain, a chain of one header, and the locked example guard.\<close>

theorem IsReorgAllowed_empty_chain_witness:
  "IsReorgAllowed [] 100 7 = Inl IndexOutOfRange
   \<and> (\<exists>r. IsReorgAllowed [\<lparr>hdrNumber = 150, hdrHash = 3\<rparr>] 100 7 = Inr r)
   \<and> IsValidChain True (\<lambda>f cur chain. True) exampleGuard \<lparr>hdrNumber = 150, hdrHash = 3\<rparr> []
       = Inl IndexOutOfRange"
proof -
  let ?cur = "\<lparr>hdrNumber = 150 :: uint64, hdrHash = 3 :: hash\<rparr>"
  have ne: "[?cur] \<noteq> []" by simp
  have reach: "True \<and> (\<lambda>(f :: finality) (cur :: header) (chain :: header list). True)
      (finality.truncate exampleGuard) ?cur [] \<and> Locked exampleGuard"
    by (simp add: exampleGuard_simps)
  from IsReorgAllowed_empty_chain [of 100 7 "[?cur]" True "\<lambda>f cur chain. True" exampleGuard ?cur]
    ne reach
  show ?thesis by blast
qed

text \<open>The example codec on the empty example store.\<close>

theorem finality_round_trip_witness:
  "WriteLastFinality exampleJson ''LastCheckpoint'' Milestone exampleStore 5 7
     = Inr (exampleStore\<lparr>entries := (entries exampleStore)(lastMilestone \<mapsto> ''{Block:5,Hash:7}'')\<rparr>)
   \<and> ReadFinality exampleJson ''LastCheckpoint'' Milestone
        (exampleStore\<lparr>entries := (entries exampleStore)(lastMilestone \<mapsto> ''{Block:5,Hash:7}'')\<rparr>)
     = Inr (5, 7)
   \<and> ReadFinality exampleJson ''LastCheckpoint'' Milestone exampleStore
     = Inl (EmptyResponse ErrNotFound)
   \<and> ReadFinality exampleJson ''LastCheckpoint'' Milestone
        (exampleStore\<lparr>entries := [lastMilestone \<mapsto> []]\<rparr>)
     = Inl ErrEmptyLastFinality
   \<and> ReadFinality exampleJson ''LastCheckpoint'' Milestone
        (exampleStore\<lparr>entries := [lastMilestone \<mapsto> ''garbage'']\<rparr>)
     = Inl ErrIncorrectFinality"
proof -
  let ?ck = "''LastCheckpoint''"
  let ?enc = "''{Block:5,Hash:7}''"
  let ?empty = "exampleStore\<lparr>entries := [lastMilestone \<mapsto> []]\<rparr>"
  let ?junk = "exampleStore\<lparr>entries := [lastMilestone \<mapsto> ''garbage'']\<rparr>"
  have key: "snd (getKey ?ck Milestone) = lastMilestone"
    by (simp add: getKey_def)
  have written: "available exampleStore
      \<and> Marshal_Finality exampleJson \<lparr>Block = 5, Hash = 7\<rparr> = Some ?enc \<and> ?enc \<noteq> []
      \<and> Unmarshal_Finality exampleJson ?enc \<lparr>Block = 0, Hash = 0\<rparr>
          = Some \<lparr>Block = 5, Hash = 7\<rparr>"
    by (simp add: exampleGuard_simps exampleJson_simps)
  have absent: "available exampleStore \<and> entries exampleStore (snd (getKey ?ck Milestone)) = None"
    by (simp add: exampleGuard_simps)
  have empty: "available ?empty \<and> entries ?empty (snd (getKey ?ck Milestone)) = Some []"
    by (simp add: exampleGuard_simps key)
  have junk: "available ?junk \<and> entries ?junk (snd (getKey ?ck Milestone)) = Some ''garbage''
      \<and> ''garbage'' \<noteq> []
      \<and> Unmarshal_Finality exampleJson ''garbage'' \<lparr>Block = 0, Hash = 0\<rparr> = None"
    by (simp add: exampleGuard_simps exampleJson_simps key)
  from finality_round_trip [of exampleStore exampleJson 5 7 ?enc ?ck Milestone] written absent
  have 1: "WriteLastFinality exampleJson ?ck Milestone exampleStore 5 7
     = Inr (exampleStore\<lparr>entries := (entries exampleStore)(snd (getKey ?ck Milestone) \<mapsto> ?enc)\<rparr>)
   \<and> ReadFinality exampleJson ?ck Milestone
        (exampleStore\<lparr>entries := (entries exampleStore)(snd (getKey ?ck Milestone) \<mapsto> ?enc)\<rparr>)
     = Inr (5, 7)
   \<and> ReadFinality exampleJson ?ck Milestone exampleStore = Inl (EmptyResponse ErrNotFound)"
    by blast
  from finality_round_trip [of ?empty exampleJson 5 7 ?enc ?ck Milestone] empty
  have 2: "ReadFinality exampleJson ?ck Milestone ?empty = Inl ErrEmptyLastFinality"
    by blast
  from finality_round_trip [of ?junk exampleJson 5 7 ?enc ?ck Milestone "''garbage''"] junk
  have 3: "ReadFinality exampleJson ?ck Milestone ?junk = Inl ErrIncorrectFinality"
    by blast
  from 1 2 3 show ?thesis by (simp add: key)
qed

end
